theory Spec2Isabelle
  imports Complex_Main "HOL-Library.Char_ord" "HOL-Library.List_Lexorder"
begin

section \<open>Python values and the operations the handlers apply to them\<close>

text \<open>
  The three Flask handlers of \<^verbatim>\<open>app.py\<close> are embedded as functions of their
  request parameters, of the upstream exchange-rate service and of the current date.
  Every exception the Python raises is a value \<open>Inl e\<close>; every upstream call a handler
  makes is recorded, in order, in the list of requests it returns.

  Strings are ASCII strings. Python floats are modelled by the reals they denote:
  rounding, infinities and NaN are outside the model. Dates are proleptic Gregorian
  ordinals (\<^verbatim>\<open>date.toordinal()\<close>).
\<close>

datatype error =
    KeyError | TypeError | AttributeError | ZeroDivisionError | OverflowError | UpstreamError

text \<open>
  A decoded JSON document. \<open>JObj kvs\<close> stands for a Python dict when the keys of
  \<open>kvs\<close> are distinct.
\<close>

datatype json =
    JNull | JBool bool | JNum real | JStr string | JArr "json list"
  | JObj "(string \<times> json) list"

fun is_substr :: "string \<Rightarrow> string \<Rightarrow> bool" where
  "is_substr k [] = (k = [])"
| "is_substr k (c # cs) = (take (length k) (c # cs) = k \<or> is_substr k cs)"

text \<open>\<^verbatim>\<open>k in j\<close> for a string \<open>k\<close>.\<close>

fun py_in :: "string \<Rightarrow> json \<Rightarrow> error + bool" where
  "py_in k (JObj kvs) = Inr (map_of kvs k \<noteq> None)"
| "py_in k (JArr xs) = Inr (JStr k \<in> set xs)"
| "py_in k (JStr s) = Inr (is_substr k s)"
| "py_in k _ = Inl TypeError"

text \<open>\<^verbatim>\<open>j[k]\<close> for a string \<open>k\<close>.\<close>

fun py_getitem :: "json \<Rightarrow> string \<Rightarrow> error + json" where
  "py_getitem (JObj kvs) k = (case map_of kvs k of None \<Rightarrow> Inl KeyError | Some v \<Rightarrow> Inr v)"
| "py_getitem _ k = Inl TypeError"

text \<open>\<^verbatim>\<open>j.get(k)\<close>: only a dict has the method.\<close>

fun py_get :: "json \<Rightarrow> string \<Rightarrow> error + json" where
  "py_get (JObj kvs) k = Inr (case map_of kvs k of None \<Rightarrow> JNull | Some v \<Rightarrow> v)"
| "py_get _ k = Inl AttributeError"

text \<open>\<^verbatim>\<open>j.items()\<close>.\<close>

fun py_items :: "json \<Rightarrow> error + (string \<times> json) list" where
  "py_items (JObj kvs) = Inr kvs"
| "py_items _ = Inl AttributeError"

text \<open>Truth value of a JSON value in a condition.\<close>

fun truthy :: "json \<Rightarrow> bool" where
  "truthy JNull = False"
| "truthy (JBool b) = b"
| "truthy (JNum x) = (x \<noteq> 0)"
| "truthy (JStr s) = (s \<noteq> [])"
| "truthy (JArr xs) = (xs \<noteq> [])"
| "truthy (JObj kvs) = (kvs \<noteq> [])"

text \<open>\<^verbatim>\<open>j / a\<close> for a float \<open>a\<close>: the operand types are checked before the divisor.\<close>

fun py_truediv :: "json \<Rightarrow> real \<Rightarrow> error + real" where
  "py_truediv (JNum c) a = (if a = 0 then Inl ZeroDivisionError else Inr (c / a))"
| "py_truediv (JBool b) a =
     (if a = 0 then Inl ZeroDivisionError else Inr ((if b then 1 else 0) / a))"
| "py_truediv _ a = Inl TypeError"

subsection \<open>Characters and strings\<close>

definition upper_letters :: string where
  "upper_letters = ''ABCDEFGHIJKLMNOPQRSTUVWXYZ''"

definition lower_letters :: string where
  "lower_letters = ''abcdefghijklmnopqrstuvwxyz''"

definition lower_char :: "char \<Rightarrow> char" where
  "lower_char c = (case map_of (zip upper_letters lower_letters) c of None \<Rightarrow> c | Some d \<Rightarrow> d)"

definition upper_char :: "char \<Rightarrow> char" where
  "upper_char c = (case map_of (zip lower_letters upper_letters) c of None \<Rightarrow> c | Some d \<Rightarrow> d)"

text \<open>A string of uppercase letters.\<close>

fun all_upper :: "string \<Rightarrow> bool" where
  "all_upper [] = True"
| "all_upper (c # cs) = (c \<in> set upper_letters \<and> all_upper cs)"

text \<open>\<^verbatim>\<open>s.lower()\<close> and \<^verbatim>\<open>s.upper()\<close>.\<close>

definition lower :: "string \<Rightarrow> string" where
  "lower s = map lower_char s"

definition upper :: "string \<Rightarrow> string" where
  "upper s = map upper_char s"

text \<open>The characters \<^verbatim>\<open>str.isspace\<close> and \<^verbatim>\<open>\s\<close> accept.\<close>

definition is_space :: "char \<Rightarrow> bool" where
  "is_space c \<longleftrightarrow> c \<in> set [CHR 0x09, CHR 0x0A, CHR 0x0B, CHR 0x0C, CHR 0x0D,
                           CHR 0x1C, CHR 0x1D, CHR 0x1E, CHR 0x1F, CHR 0x20]"

text \<open>\<^verbatim>\<open>\d\<close>, \<^verbatim>\<open>[a-zA-Z]\<close> and \<^verbatim>\<open>.\<close>.\<close>

definition is_digit :: "char \<Rightarrow> bool" where
  "is_digit c \<longleftrightarrow> c \<in> set ''0123456789''"

definition is_alpha :: "char \<Rightarrow> bool" where
  "is_alpha c \<longleftrightarrow> c \<in> set lower_letters \<or> c \<in> set upper_letters"

definition is_any :: "char \<Rightarrow> bool" where
  "is_any c \<longleftrightarrow> c \<noteq> CHR 0x0A"

text \<open>\<^verbatim>\<open>s.strip()\<close>.\<close>

definition strip :: "string \<Rightarrow> string" where
  "strip s = rev (dropWhile is_space (rev (dropWhile is_space s)))"

text \<open>
  \<^verbatim>\<open>int(s)\<close> on a string of decimal digits. (Recent Python versions raise
  \<open>ValueError\<close> for more than 4300 digits; the one caller fails on such a number
  anyway, as a number of days out of range.)
\<close>

definition digit_val :: "char \<Rightarrow> int" where
  "digit_val c = (case map_of (zip ''0123456789'' [0 .. 9]) c of None \<Rightarrow> 0 | Some d \<Rightarrow> d)"

definition int_of :: "string \<Rightarrow> int" where
  "int_of s = foldl (\<lambda>n c. 10 * n + digit_val c) 0 s"

text \<open>\<^verbatim>\<open>float(s)\<close> on a string of the form digits, optional point, digits.\<close>

definition float_of :: "string \<Rightarrow> real" where
  "float_of s =
     (let ip = takeWhile is_digit s; fp = drop (Suc (length ip)) s
      in of_int (int_of ip) + of_int (int_of fp) / 10 ^ length fp)"

section \<open>Regular expressions\<close>

text \<open>
  The fragment of \<^verbatim>\<open>re\<close> the three patterns use: character classes, sequence,
  alternation, an optional item, a greedy repetition of a character class with a lower
  bound, a fixed number of repetitions of a character class, and numbered groups.
\<close>

datatype rx =
    Sym "char \<Rightarrow> bool"
  | Seq rx rx
  | Alt rx rx
  | Opt rx
  | AtLeast nat "char \<Rightarrow> bool"
  | Exactly nat "char \<Rightarrow> bool"
  | Grp nat rx

type_synonym caps = "nat \<Rightarrow> string option"

text \<open>The numbers of the groups of a pattern.\<close>

fun groups :: "rx \<Rightarrow> nat set" where
  "groups (Sym p) = {}"
| "groups (Seq a b) = groups a \<union> groups b"
| "groups (Alt a b) = groups a \<union> groups b"
| "groups (Opt a) = groups a"
| "groups (AtLeast n p) = {}"
| "groups (Exactly n p) = {}"
| "groups (Grp i a) = insert i (groups a)"

text \<open>
  The remainders of \<open>s\<close> after a greedy run of characters in \<open>p\<close>, longest run first.
\<close>

fun greedy :: "(char \<Rightarrow> bool) \<Rightarrow> string \<Rightarrow> string list" where
  "greedy p [] = [[]]"
| "greedy p (c # cs) = (if p c then greedy p cs @ [c # cs] else [c # cs])"

fun exactly :: "nat \<Rightarrow> (char \<Rightarrow> bool) \<Rightarrow> string \<Rightarrow> string list" where
  "exactly 0 p s = [s]"
| "exactly (Suc n) p [] = []"
| "exactly (Suc n) p (c # cs) = (if p c then exactly n p cs else [])"

fun atleast :: "nat \<Rightarrow> (char \<Rightarrow> bool) \<Rightarrow> string \<Rightarrow> string list" where
  "atleast 0 p s = greedy p s"
| "atleast (Suc n) p [] = []"
| "atleast (Suc n) p (c # cs) = (if p c then atleast n p cs else [])"

text \<open>
  All the ways \<open>r\<close> matches a prefix of the input, in the order a backtracking matcher
  tries them: each is the rest of the input with the groups captured so far.
\<close>

fun matches :: "rx \<Rightarrow> string \<times> caps \<Rightarrow> (string \<times> caps) list" where
  "matches (Sym p) (s, g) = (case s of [] \<Rightarrow> [] | c # cs \<Rightarrow> if p c then [(cs, g)] else [])"
| "matches (Seq a b) st = concat (map (matches b) (matches a st))"
| "matches (Alt a b) st = matches a st @ matches b st"
| "matches (Opt a) st = matches a st @ [st]"
| "matches (AtLeast n p) (s, g) = map (\<lambda>s'. (s', g)) (atleast n p s)"
| "matches (Exactly n p) (s, g) = map (\<lambda>s'. (s', g)) (exactly n p s)"
| "matches (Grp i a) (s, g) =
     map (\<lambda>(s', g'). (s', g'(i \<mapsto> take (length s - length s') s))) (matches a (s, g))"

text \<open>\<^verbatim>\<open>re.search\<close>: the first match at the leftmost position that has one.\<close>

fun search :: "rx \<Rightarrow> string \<Rightarrow> caps option" where
  "search r [] = (case matches r ([], Map.empty) of [] \<Rightarrow> None | (s', g) # _ \<Rightarrow> Some g)"
| "search r (c # cs) =
     (case matches r (c # cs, Map.empty) of [] \<Rightarrow> search r cs | (s', g) # _ \<Rightarrow> Some g)"

text \<open>\<^verbatim>\<open>match.groups()\<close> of a pattern with three groups.\<close>

definition grp :: "caps \<Rightarrow> nat \<Rightarrow> string" where
  "grp g i = (case g i of None \<Rightarrow> [] | Some s \<Rightarrow> s)"

definition lit :: "char \<Rightarrow> rx" where
  "lit c = Sym (\<lambda>x. x = c)"

fun word :: "string \<Rightarrow> rx" where
  "word [] = AtLeast 0 (\<lambda>x. False)"
| "word [c] = lit c"
| "word (c # cs) = Seq (lit c) (word cs)"

fun seqs :: "rx list \<Rightarrow> rx" where
  "seqs [] = AtLeast 0 (\<lambda>x. False)"
| "seqs [r] = r"
| "seqs (r # rs) = Seq r (seqs rs)"

fun alts :: "rx list \<Rightarrow> rx" where
  "alts [] = Sym (\<lambda>x. False)"
| "alts [r] = r"
| "alts (r # rs) = Alt r (alts rs)"

text \<open>
  \<^verbatim>\<open>(\d+\.?\d*)\s*([a-zA-Z]{2,}|rupee|yen|dollar|euro)\s*(?:to|in)?\s*([a-zA-Z]{2,}|rupee|yen|dollar|euro)\<close>
\<close>

definition currency_word :: rx where
  "currency_word =
     alts [AtLeast 2 is_alpha, word ''rupee'', word ''yen'', word ''dollar'', word ''euro'']"

definition rx_convert :: rx where
  "rx_convert = seqs
     [Grp 1 (seqs [AtLeast 1 is_digit, Opt (lit CHR ''.''), AtLeast 0 is_digit]),
      AtLeast 0 is_space,
      Grp 2 currency_word,
      AtLeast 0 is_space,
      Opt (alts [word ''to'', word ''in'']),
      AtLeast 0 is_space,
      Grp 3 currency_word]"

text \<open>
  \<^verbatim>\<open>(usd|eur|inr|jpy|gbp|[a-zA-Z]{3})\s*(?:to)?\s*(usd|eur|inr|jpy|gbp|[a-zA-Z]{3}).*on\s*(\d{4}-\d{2}-\d{2})\<close>
\<close>

definition currency_code :: rx where
  "currency_code =
     alts [word ''usd'', word ''eur'', word ''inr'', word ''jpy'', word ''gbp'',
           Exactly 3 is_alpha]"

definition rx_date :: rx where
  "rx_date = seqs
     [Grp 1 currency_code,
      AtLeast 0 is_space,
      Opt (word ''to''),
      AtLeast 0 is_space,
      Grp 2 currency_code,
      AtLeast 0 is_any,
      word ''on'',
      AtLeast 0 is_space,
      Grp 3 (seqs [Exactly 4 is_digit, lit CHR ''-'', Exactly 2 is_digit, lit CHR ''-'',
                   Exactly 2 is_digit])]"

text \<open>
  \<^verbatim>\<open>(usd|eur|inr|jpy|gbp|[a-zA-Z]{3})\s*to\s*(usd|eur|inr|jpy|gbp|[a-zA-Z]{3}).*last\s*(\d+)\s*days\<close>
\<close>

definition rx_range :: rx where
  "rx_range = seqs
     [Grp 1 currency_code,
      AtLeast 0 is_space,
      word ''to'',
      AtLeast 0 is_space,
      Grp 2 currency_code,
      AtLeast 0 is_any,
      word ''last'',
      AtLeast 0 is_space,
      Grp 3 (AtLeast 1 is_digit),
      AtLeast 0 is_space,
      word ''days'']"

section \<open>The upstream service, requests and responses\<close>

text \<open>
  The three upstream endpoints, each with the query it is called with:
  \<^verbatim>\<open>/latest?amount=&from=&to=\<close>, \<^verbatim>\<open>/{date}?from=&to=\<close> and
  \<^verbatim>\<open>/{start}..{end}?from=&to=\<close>.
\<close>

datatype request =
    Latest real string string
  | OnDate string string string
  | Span int int string string

text \<open>
  \<^verbatim>\<open>requests.get(url, params=params).json()\<close>: the decoded document, or \<open>None\<close> when
  the call or the decoding raises.
\<close>

type_synonym upstream = "request \<Rightarrow> json option"

text \<open>
  The JSON bodies the handlers build. The text of a chatbot answer is kept as the values
  its f-string interpolates.
\<close>

datatype body =
    ErrorBody string
  | ConvertBody string string real json "real option"
  | HistoricalBody string string string "string list" "json list"
  | ChatConvert string string json string real
  | ChatRate string string json string
  | ChatRange string string int json
  | ChatHelp

type_synonym response = "int \<times> body"

type_synonym outcome = "request list \<times> (error + response)"

text \<open>
  \<^verbatim>\<open>d - timedelta(days=n)\<close>: both the timedelta and the resulting date have a range.
\<close>

definition minus_days :: "int \<Rightarrow> int \<Rightarrow> error + int" where
  "minus_days d n =
     (if 999999999 < n \<or> d - n < 1 then Inl OverflowError else Inr (d - n))"

text \<open>\<^verbatim>\<open>request.args.get(name, default=d, type=str)\<close>.\<close>

definition param :: "string option \<Rightarrow> string \<Rightarrow> string" where
  "param arg d = (case arg of None \<Rightarrow> d | Some s \<Rightarrow> s)"

section \<open>\<^verbatim>\<open>/convert\<close>\<close>

text \<open>
  \<open>amount\<close> is \<^verbatim>\<open>request.args.get('amount', type=float)\<close>: \<open>None\<close> when the parameter
  is missing or does not parse.
\<close>

definition convert_currency ::
  "upstream \<Rightarrow> real option \<Rightarrow> string option \<Rightarrow> string option \<Rightarrow> outcome" where
  "convert_currency up amount from_arg to_arg =
     (let from_currency = upper (param from_arg ''USD'');
          to_currency = upper (param to_arg ''INR'')
      in case amount of
           None \<Rightarrow> ([], Inr (400, ErrorBody ''Missing amount''))
         | Some a \<Rightarrow>
             if a = 0 then ([], Inr (400, ErrorBody ''Missing amount''))
             else
               let req = Latest a from_currency to_currency
               in case up req of
                    None \<Rightarrow> ([req], Inl UpstreamError)
                  | Some res \<Rightarrow>
                      (case py_getitem res ''rates'' of
                         Inl e \<Rightarrow> ([req], Inl e)
                       | Inr rates \<Rightarrow>
                           (case py_get rates to_currency of
                              Inl e \<Rightarrow> ([req], Inl e)
                            | Inr converted \<Rightarrow>
                                if a \<noteq> 0 \<and> truthy converted then
                                  (case py_truediv converted a of
                                     Inl e \<Rightarrow> ([req], Inl e)
                                   | Inr rate \<Rightarrow>
                                       ([req], Inr (200, ConvertBody from_currency to_currency
                                                           a converted (Some rate))))
                                else
                                  ([req], Inr (200, ConvertBody from_currency to_currency
                                                      a converted None)))))"

section \<open>\<^verbatim>\<open>/historical\<close>\<close>

text \<open>\<^verbatim>\<open>max(1, n // maxPoints)\<close>; the handler calls it with 100.\<close>

definition stride :: "nat \<Rightarrow> nat \<Rightarrow> nat" where
  "stride maxPoints n = max 1 (n div maxPoints)"

text \<open>
  The loop over \<^verbatim>\<open>enumerate(sorted_data)\<close>: \<open>i\<close> is the index of the next item,
  the pair of lists is \<^verbatim>\<open>(dates, rates)\<close>.
\<close>

fun sample_loop ::
  "string \<Rightarrow> nat \<Rightarrow> nat \<Rightarrow> (string \<times> json) list \<Rightarrow> string list \<times> json list
     \<Rightarrow> error + string list \<times> json list" where
  "sample_loop to_currency step i [] acc = Inr acc"
| "sample_loop to_currency step i ((date, data) # rest) (dates, rates) =
     (if i mod step = 0 then
        (case py_getitem data to_currency of
           Inl e \<Rightarrow> Inl e
         | Inr r \<Rightarrow> sample_loop to_currency step (Suc i) rest (dates @ [date], rates @ [r]))
      else sample_loop to_currency step (Suc i) rest (dates, rates))"

text \<open>The items the loop keeps: those at the indices \<open>j \<ge> i\<close> with \<open>j mod step = 0\<close>.\<close>

fun kept :: "nat \<Rightarrow> nat \<Rightarrow> 'a list \<Rightarrow> 'a list" where
  "kept step i [] = []"
| "kept step i (x # xs) =
     (if i mod step = 0 then x # kept step (Suc i) xs else kept step (Suc i) xs)"

text \<open>
  \<^verbatim>\<open>sorted(d.items())\<close>: the keys of a dict are distinct, so the pairs are ordered by
  their keys alone.
\<close>

definition sorted_items :: "(string \<times> json) list \<Rightarrow> (string \<times> json) list" where
  "sorted_items kvs = sort_key fst kvs"

definition sample :: "nat \<Rightarrow> string \<Rightarrow> (string \<times> json) list \<Rightarrow> error + string list \<times> json list" where
  "sample maxPoints to_currency sorted_data =
     sample_loop to_currency (stride maxPoints (length sorted_data)) 0 sorted_data ([], [])"

text \<open>The start date of a range token; \<open>None\<close> for a token that is not in the table.\<close>

definition start_date :: "int \<Rightarrow> string \<Rightarrow> (error + int) option" where
  "start_date end_date range_param =
     (if range_param \<in> set [''7d'', ''7days''] then Some (minus_days end_date 7)
      else if range_param \<in> set [''30d'', ''1m'', ''30days''] then Some (minus_days end_date 30)
      else if range_param \<in> set [''365d'', ''1y'', ''year''] then Some (minus_days end_date 365)
      else if range_param \<in> set [''all'', ''max''] then Some (Inr 729758)
      else None)"

definition historical_data ::
  "upstream \<Rightarrow> int \<Rightarrow> string option \<Rightarrow> string option \<Rightarrow> string option \<Rightarrow> outcome" where
  "historical_data up today from_arg to_arg range_arg =
     (let from_currency = upper (param from_arg ''USD'');
          to_currency = upper (param to_arg ''INR'');
          range_param = lower (param range_arg ''7d'');
          end_date = today
      in case start_date end_date range_param of
           None \<Rightarrow>
             ([], Inr (400, ErrorBody ''Invalid range. Use 7d, 30d/1m, 365d/1y, or all/max''))
         | Some (Inl e) \<Rightarrow> ([], Inl e)
         | Some (Inr start) \<Rightarrow>
             let req = Span start end_date from_currency to_currency
             in case up req of
                  None \<Rightarrow> ([req], Inl UpstreamError)
                | Some res \<Rightarrow>
                    (case py_in ''rates'' res of
                       Inl e \<Rightarrow> ([req], Inl e)
                     | Inr False \<Rightarrow> ([req], Inr (404, ErrorBody ''No data available''))
                     | Inr True \<Rightarrow>
                         (case py_getitem res ''rates'' of
                            Inl e \<Rightarrow> ([req], Inl e)
                          | Inr rates_obj \<Rightarrow>
                              (case py_items rates_obj of
                                 Inl e \<Rightarrow> ([req], Inl e)
                               | Inr kvs \<Rightarrow>
                                   (case sample 100 to_currency (sorted_items kvs) of
                                      Inl e \<Rightarrow> ([req], Inl e)
                                    | Inr (dates, rates) \<Rightarrow>
                                        ([req], Inr (200, HistoricalBody from_currency
                                           to_currency range_param dates rates)))))))"

section \<open>\<^verbatim>\<open>/chatbot\<close>\<close>

text \<open>\<^verbatim>\<open>mapping.get(token.lower(), token.upper())\<close>.\<close>

definition mapping :: "(string \<times> string) list" where
  "mapping = [(''rupee'', ''INR''), (''yen'', ''JPY''), (''dollar'', ''USD''),
              (''euro'', ''EUR''), (''pound'', ''GBP'')]"

definition normalize :: "string \<Rightarrow> string" where
  "normalize token = (case map_of mapping (lower token) of None \<Rightarrow> upper token | Some code \<Rightarrow> code)"

text \<open>What each rule extracts from the message when its pattern is found.\<close>

definition parse_convert :: "string \<Rightarrow> (string \<times> string \<times> string) option" where
  "parse_convert message =
     (case search rx_convert message of
        None \<Rightarrow> None
      | Some g \<Rightarrow> Some (grp g 1, normalize (grp g 2), normalize (grp g 3)))"

definition parse_date :: "string \<Rightarrow> (string \<times> string \<times> string) option" where
  "parse_date message =
     (case search rx_date message of
        None \<Rightarrow> None
      | Some g \<Rightarrow> Some (upper (grp g 1), upper (grp g 2), grp g 3))"

definition parse_range :: "string \<Rightarrow> (string \<times> string \<times> int) option" where
  "parse_range message =
     (case search rx_range message of
        None \<Rightarrow> None
      | Some g \<Rightarrow> Some (upper (grp g 1), upper (grp g 2), int_of (grp g 3)))"

text \<open>\<^verbatim>\<open>"rates" in res and to_currency in res["rates"]\<close>.\<close>

definition has_rate :: "json \<Rightarrow> string \<Rightarrow> error + bool" where
  "has_rate res to_currency =
     (case py_in ''rates'' res of
        Inl e \<Rightarrow> Inl e
      | Inr False \<Rightarrow> Inr False
      | Inr True \<Rightarrow>
          (case py_getitem res ''rates'' of
             Inl e \<Rightarrow> Inl e
           | Inr rates \<Rightarrow> py_in to_currency rates))"

text \<open>\<^verbatim>\<open>res["rates"][to_currency]\<close>.\<close>

definition rate_of :: "json \<Rightarrow> string \<Rightarrow> error + json" where
  "rate_of res to_currency =
     (case py_getitem res ''rates'' of
        Inl e \<Rightarrow> Inl e
      | Inr rates \<Rightarrow> py_getitem rates to_currency)"

text \<open>
  A rule's block: the calls it made, and an error, an answer, or \<open>Inr None\<close> when control
  leaves the block without returning.
\<close>

type_synonym attempt = "request list \<times> (error + response option)"

definition rule_convert :: "upstream \<Rightarrow> string \<Rightarrow> attempt" where
  "rule_convert up message =
     (case parse_convert message of
        None \<Rightarrow> ([], Inr None)
      | Some (amount, from_currency, to_currency) \<Rightarrow>
          let req = Latest (float_of amount) from_currency to_currency
          in case up req of
               None \<Rightarrow> ([req], Inl UpstreamError)
             | Some res \<Rightarrow>
                 (case has_rate res to_currency of
                    Inl e \<Rightarrow> ([req], Inl e)
                  | Inr False \<Rightarrow> ([req], Inr None)
                  | Inr True \<Rightarrow>
                      (case rate_of res to_currency of
                         Inl e \<Rightarrow> ([req], Inl e)
                       | Inr converted \<Rightarrow>
                           (case py_truediv converted (float_of amount) of
                              Inl e \<Rightarrow> ([req], Inl e)
                            | Inr rate \<Rightarrow>
                                ([req], Inr (Some (200, ChatConvert amount from_currency
                                                          converted to_currency rate)))))))"

definition rule_date :: "upstream \<Rightarrow> string \<Rightarrow> attempt" where
  "rule_date up message =
     (case parse_date message of
        None \<Rightarrow> ([], Inr None)
      | Some (from_currency, to_currency, date) \<Rightarrow>
          let req = OnDate date from_currency to_currency
          in case up req of
               None \<Rightarrow> ([req], Inl UpstreamError)
             | Some res \<Rightarrow>
                 (case has_rate res to_currency of
                    Inl e \<Rightarrow> ([req], Inl e)
                  | Inr False \<Rightarrow> ([req], Inr None)
                  | Inr True \<Rightarrow>
                      (case rate_of res to_currency of
                         Inl e \<Rightarrow> ([req], Inl e)
                       | Inr rate \<Rightarrow>
                           ([req], Inr (Some (200, ChatRate date from_currency rate
                                                     to_currency))))))"

definition rule_range :: "upstream \<Rightarrow> int \<Rightarrow> string \<Rightarrow> attempt" where
  "rule_range up today message =
     (case parse_range message of
        None \<Rightarrow> ([], Inr None)
      | Some (from_currency, to_currency, days) \<Rightarrow>
          (case minus_days today days of
             Inl e \<Rightarrow> ([], Inl e)
           | Inr start \<Rightarrow>
               let req = Span start today from_currency to_currency
               in case up req of
                    None \<Rightarrow> ([req], Inl UpstreamError)
                  | Some res \<Rightarrow>
                      (case py_in ''rates'' res of
                         Inl e \<Rightarrow> ([req], Inl e)
                       | Inr False \<Rightarrow> ([req], Inr None)
                       | Inr True \<Rightarrow>
                           (case py_getitem res ''rates'' of
                              Inl e \<Rightarrow> ([req], Inl e)
                            | Inr data \<Rightarrow>
                                ([req], Inr (Some (200, ChatRange from_currency to_currency
                                                          days data)))))))"

text \<open>Control reaches the next block only when the block before it did not return.\<close>

definition or_else :: "attempt \<Rightarrow> attempt \<Rightarrow> attempt" where
  "or_else a b =
     (case a of
        (calls, Inr None) \<Rightarrow> (case b of (calls', r) \<Rightarrow> (calls @ calls', r))
      | _ \<Rightarrow> a)"

text \<open>The default fallback at the end of the handler.\<close>

definition fallback :: "attempt \<Rightarrow> outcome" where
  "fallback a =
     (case a of
        (calls, Inl e) \<Rightarrow> (calls, Inl e)
      | (calls, Inr None) \<Rightarrow> (calls, Inr (200, ChatHelp))
      | (calls, Inr (Some r)) \<Rightarrow> (calls, Inr r))"

text \<open>The blocks for rules 2 and 3 and the fallback, as they follow rule 1's block.\<close>

definition after_convert :: "upstream \<Rightarrow> int \<Rightarrow> string \<Rightarrow> attempt" where
  "after_convert up today message = or_else (rule_date up message) (rule_range up today message)"

text \<open>\<open>raw\<close> is \<^verbatim>\<open>data.get("message", "")\<close>.\<close>

definition chatbot :: "upstream \<Rightarrow> int \<Rightarrow> string \<Rightarrow> outcome" where
  "chatbot up today raw =
     (let message = strip (lower raw)
      in fallback (or_else (rule_convert up message) (after_convert up today message)))"

section \<open>Concrete upstream answers\<close>

text \<open>The answer of the service to a currency code it does not know.\<close>

definition not_found :: json where
  "not_found = JObj [(''message'', JStr ''not found'')]"

definition no_rates_upstream :: upstream where
  "no_rates_upstream req = Some not_found"

text \<open>An answer to a conversion of the amount 0.\<close>

definition zero_upstream :: upstream where
  "zero_upstream req =
     Some (JObj [(''amount'', JNum 0), (''base'', JStr ''USD''), (''date'', JStr ''2026-11-03''),
                 (''rates'', JObj [(''INR'', JNum 0)])])"

text \<open>A service that knows the three-letter codes only and has one day of data.\<close>

definition range_upstream :: upstream where
  "range_upstream req =
     (case req of
        Latest a f t \<Rightarrow>
          if length f = 3 \<and> length t = 3
          then Some (JObj [(''amount'', JNum a), (''base'', JStr f), (''rates'', JObj [(t, JNum (2 * a))])])
          else Some not_found
      | OnDate d f t \<Rightarrow> Some (JObj [(''base'', JStr f), (''date'', JStr d), (''rates'', JObj [(t, JNum 2)])])
      | Span s e f t \<Rightarrow>
          Some (JObj [(''base'', JStr f),
                      (''rates'', JObj [(''2026-10-30'', JObj [(t, JNum 2)])])]))"

text \<open>A service that has a rate for every pair of codes it is asked about.\<close>

definition any_rate_upstream :: upstream where
  "any_rate_upstream req =
     (case req of
        Latest a f t \<Rightarrow>
          Some (JObj [(''amount'', JNum a), (''base'', JStr f), (''rates'', JObj [(t, JNum (2 * a))])])
      | OnDate d f t \<Rightarrow> Some (JObj [(''base'', JStr f), (''date'', JStr d), (''rates'', JObj [(t, JNum 2)])])
      | Span s e f t \<Rightarrow>
          Some (JObj [(''base'', JStr f),
                      (''rates'', JObj [(''2026-10-30'', JObj [(t, JNum 2)])])]))"

text \<open>Three days of data, the keys not in ascending order.\<close>

definition unsorted_upstream :: upstream where
  "unsorted_upstream req =
     Some (JObj [(''base'', JStr ''USD''),
                 (''rates'', JObj [(''2026-11-03'', JObj [(''INR'', JNum 3)]),
                                   (''2026-10-30'', JObj [(''INR'', JNum 1)]),
                                   (''2026-11-02'', JObj [(''INR'', JNum 2)])])])"

text \<open>The first 199 days of 2025 as a sorted series, each with a rate for INR.\<close>

definition two_digits :: "nat \<Rightarrow> string" where
  "two_digits n = [''0123456789'' ! (n div 10), ''0123456789'' ! (n mod 10)]"

definition month_days :: "nat \<times> nat \<Rightarrow> string list" where
  "month_days mn =
     map (\<lambda>d. ''2025-'' @ two_digits (fst mn) @ ''-'' @ two_digits d) [1 ..< Suc (snd mn)]"

definition days_199 :: "string list" where
  "days_199 =
     concat (map month_days [(1, 31), (2, 28), (3, 31), (4, 30), (5, 31), (6, 30), (7, 18)])"

definition series_199 :: "(string \<times> json) list" where
  "series_199 = map (\<lambda>d. (d, JObj [(''INR'', JNum 85)])) days_199"

definition series_upstream :: upstream where
  "series_upstream req = Some (JObj [(''base'', JStr ''USD''), (''rates'', JObj series_199)])"

section \<open>The sampling loop\<close>

lemma kept_subset: "set (kept step i xs) \<subseteq> set xs"
  by (induction xs arbitrary: i) auto

lemma sorted_kept: "sorted (map f xs) \<Longrightarrow> sorted (map f (kept step i xs))"
proof (induction xs arbitrary: i)
  case Nil
  then show ?case by simp
next
  case (Cons x xs)
  have "set (kept step (Suc i) xs) \<subseteq> set xs" by (rule kept_subset)
  with Cons show ?case by auto
qed

lemma kept_step_one: "kept (Suc 0) i xs = xs"
  by (induction xs arbitrary: i) auto

lemma sample_loop_kept:
  "sample_loop t step i xs (ds, rs) = Inr (ds', rs') \<Longrightarrow>
     ds' = ds @ map fst (kept step i xs) \<and>
     (\<exists>vs. rs' = rs @ vs \<and> map (\<lambda>x. py_getitem (snd x) t) (kept step i xs) = map Inr vs)"
proof (induction xs arbitrary: i ds rs)
  case Nil
  then show ?case by simp
next
  case (Cons x xs)
  obtain date data where x: "x = (date, data)" by (cases x)
  show ?case
  proof (cases "i mod step = 0")
    case True
    with Cons.prems x obtain r where r: "py_getitem data t = Inr r"
      and rest: "sample_loop t step (Suc i) xs (ds @ [date], rs @ [r]) = Inr (ds', rs')"
      by (auto split: sum.splits)
    from Cons.IH [OF rest] True x r show ?thesis by auto
  next
    case False
    with Cons.prems x have "sample_loop t step (Suc i) xs (ds, rs) = Inr (ds', rs')"
      by simp
    from Cons.IH [OF this] False show ?thesis by simp
  qed
qed

lemma sample_loop_total:
  "\<forall>x\<in>set xs. \<exists>r. py_getitem (snd x) t = Inr r \<Longrightarrow>
     \<exists>ds' rs'. sample_loop t step i xs (ds, rs) = Inr (ds', rs')"
proof (induction xs arbitrary: i ds rs)
  case Nil
  then show ?case by simp
next
  case (Cons x xs)
  obtain date data where x: "x = (date, data)" by (cases x)
  from Cons.prems x obtain r where r: "py_getitem data t = Inr r" by auto
  from Cons.prems have all: "\<forall>x\<in>set xs. \<exists>r. py_getitem (snd x) t = Inr r" by simp
  show ?case
    using Cons.IH [OF all, of "Suc i" "ds @ [date]" "rs @ [r]"] Cons.IH [OF all, of "Suc i" ds rs] x r
    by auto
qed

lemma py_items_obj: "py_items j = Inr kvs \<Longrightarrow> j = JObj kvs"
  by (cases j) auto

lemma sample_loop_uniform:
  "sample_loop t (Suc 0) i (map (\<lambda>d. (d, JObj [(t, r)])) ds0) (ds, rs) =
     Inr (ds @ ds0, rs @ replicate (length ds0) r)"
proof (induction ds0 arbitrary: i ds rs)
  case Nil
  then show ?case by simp
next
  case (Cons d ds0)
  show ?case
    using Cons.IH [of "Suc i" "ds @ [d]" "rs @ [r]"]
    by (simp add: replicate_append_same)
qed

lemma length_days_199: "length days_199 = 199"
  by (simp add: days_199_def month_days_def)

lemma sample_series_199:
  "sample 100 ''INR'' series_199 = Inr (days_199, replicate 199 (JNum 85))"
proof -
  have len: "length series_199 = 199"
    by (simp add: series_199_def length_days_199)
  have "stride 100 (length series_199) = Suc 0"
    by (simp add: len stride_def)
  then show ?thesis
    using sample_loop_uniform [of "''INR''" 0 "JNum 85" days_199 "[]" "[]"]
    by (simp add: sample_def series_199_def length_days_199)
qed

lemma sorted_series: "sorted_items series_199 = series_199"
  by code_simp

section \<open>The range sampler\<close>

text \<open>
  Claim C7. For every non-empty series whose entries all carry a rate for the target
  currency, and for every \<open>maxPoints\<close>, the sampler returns; both lists it returns are
  non-empty, the first date is the first date of the input and the first rate is the rate
  of the first entry.
\<close>

theorem sample_keeps_first:
  assumes "sorted_data \<noteq> []"
    and "\<forall>x\<in>set sorted_data. \<exists>r. py_getitem (snd x) to_currency = Inr r"
  shows "\<exists>dates rates. sample maxPoints to_currency sorted_data = Inr (dates, rates) \<and>
           dates \<noteq> [] \<and> rates \<noteq> [] \<and> hd dates = fst (hd sorted_data) \<and>
           py_getitem (snd (hd sorted_data)) to_currency = Inr (hd rates)"
proof -
  from assms(1) obtain date data rest where xs: "sorted_data = (date, data) # rest"
    by (cases sorted_data) auto
  from assms(2) xs obtain r where r: "py_getitem data to_currency = Inr r" by auto
  from assms(2) xs have all: "\<forall>x\<in>set rest. \<exists>r. py_getitem (snd x) to_currency = Inr r" by simp
  let ?step = "stride maxPoints (length sorted_data)"
  from sample_loop_total [OF all] obtain ds' rs' where
    run: "sample_loop to_currency ?step (Suc 0) rest ([] @ [date], [] @ [r]) = Inr (ds', rs')"
    by blast
  from sample_loop_kept [OF run] obtain vs where
    ds': "ds' = [date] @ map fst (kept ?step (Suc 0) rest)" and rs': "rs' = [r] @ vs"
    by auto
  have "sample maxPoints to_currency sorted_data = Inr (ds', rs')"
    using run r xs by (simp add: sample_def)
  with ds' rs' r xs show ?thesis by simp
qed

theorem sample_keeps_first_witness:
  "\<exists>dates rates.
      sample 100 ''INR'' [(''2026-10-30'', JObj [(''INR'', JNum 1)]), (''2026-11-02'', JObj [(''INR'', JNum 2)])]
        = Inr (dates, rates) \<and>
      dates \<noteq> [] \<and> rates \<noteq> [] \<and> hd dates = ''2026-10-30'' \<and> hd rates = JNum 1"
proof -
  let ?series = "[(''2026-10-30'', JObj [(''INR'', JNum 1)]), (''2026-11-02'', JObj [(''INR'', JNum 2)])]"
  have ne: "?series \<noteq> []" by simp
  have all: "\<forall>x\<in>set ?series. \<exists>r. py_getitem (snd x) ''INR'' = Inr r" by simp
  from sample_keeps_first [OF ne all, of 100] obtain dates rates where
    "sample 100 ''INR'' ?series = Inr (dates, rates)" "dates \<noteq> []" "rates \<noteq> []"
    "hd dates = fst (hd ?series)" "py_getitem (snd (hd ?series)) ''INR'' = Inr (hd rates)"
    by blast
  then have "sample 100 ''INR'' ?series = Inr (dates, rates) \<and> dates \<noteq> [] \<and> rates \<noteq> [] \<and>
             hd dates = ''2026-10-30'' \<and> hd rates = JNum 1"
    by simp
  then show ?thesis by blast
qed

text \<open>
  Claim C1. With 199 entries the stride is \<open>max 1 (199 div 100) = 1\<close>, so the sampler
  keeps all 199 of them, more than \<open>maxPoints + 1 = 101\<close>: the answer of
  \<^verbatim>\<open>/historical?range=365d\<close> to an upstream series of 199 days has 199 dates.
\<close>

theorem historical_exceeds_max_points:
  "sample 100 ''INR'' series_199 = Inr (days_199, replicate 199 (JNum 85)) \<and>
   historical_data series_upstream 739924 None None (Some ''365d'') =
     ([Span 739559 739924 ''USD'' ''INR''],
      Inr (200, HistoricalBody ''USD'' ''INR'' ''365d'' days_199 (replicate 199 (JNum 85)))) \<and>
   length series_199 = 199 \<and> length days_199 = 199 \<and> \<not> 199 \<le> (100::nat) + 1"
proof -
  have p: "upper (param None ''USD'') = ''USD''" "upper (param None ''INR'') = ''INR''"
    "lower (param (Some ''365d'') ''7d'') = ''365d''"
    by code_simp+
  have sd: "start_date 739924 ''365d'' = Some (Inr 739559)"
    by code_simp
  have len: "length series_199 = 199"
    by (simp add: series_199_def length_days_199)
  have "historical_data series_upstream 739924 None None (Some ''365d'') =
     ([Span 739559 739924 ''USD'' ''INR''],
      Inr (200, HistoricalBody ''USD'' ''INR'' ''365d'' days_199 (replicate 199 (JNum 85))))"
    by (simp add: historical_data_def Let_def p sd series_upstream_def sorted_series
          sample_series_199)
  with sample_series_199 len length_days_199 show ?thesis by simp
qed

section \<open>The amount guard of \<^verbatim>\<open>/convert\<close>\<close>

text \<open>
  Claim C8. A \<^verbatim>\<open>/convert\<close> request whose amount is missing (or does not parse) or is
  0 is answered with status 400 and the fixed message \<open>Missing amount\<close>, and the list
  of upstream calls is empty.
\<close>

theorem convert_missing_amount:
  "amount = None \<or> amount = Some 0 \<Longrightarrow>
     convert_currency up amount from_arg to_arg = ([], Inr (400, ErrorBody ''Missing amount''))"
  by (auto simp: convert_currency_def Let_def)

theorem convert_missing_amount_witness:
  "(Some (0::real) = None \<or> Some (0::real) = Some 0) \<and>
   convert_currency range_upstream (Some 0) (Some ''usd'') (Some ''eur'') =
     ([], Inr (400, ErrorBody ''Missing amount''))"
  using convert_missing_amount [of "Some 0" range_upstream "Some ''usd''" "Some ''eur''"] by simp

text \<open>
  Claim C10, as it is stated: for a negative amount the response carries the rate
  \<open>converted / amount\<close> whenever a converted value is returned. The handler computes
  the rate only when the converted value is truthy: for the converted value 0 the rate of
  the response is null.
\<close>

theorem negative_amount_rate_counterexample:
  "convert_currency zero_upstream (Some (-5)) (Some ''usd'') (Some ''inr'') =
     ([Latest (-5) ''USD'' ''INR''],
      Inr (200, ConvertBody ''USD'' ''INR'' (-5) (JNum 0) None))"
  by code_simp

text \<open>
  Claim C10, amended. A negative amount passes the guard: the handler calls the upstream
  service and, when the answer carries a number for the target currency, responds with
  status 200, the amount and the converted value; the rate is \<open>converted / amount\<close>
  when the converted value is not 0 and null when it is 0. A response with status 400 is
  produced exactly when the amount is missing (or does not parse) or is 0.
\<close>

theorem convert_negative_amount:
  assumes "a < 0"
    and "up (Latest a (upper (param from_arg ''USD'')) (upper (param to_arg ''INR''))) = Some res"
    and "py_getitem res ''rates'' = Inr rates"
    and "py_get rates (upper (param to_arg ''INR'')) = Inr (JNum c)"
  shows "convert_currency up (Some a) from_arg to_arg =
           ([Latest a (upper (param from_arg ''USD'')) (upper (param to_arg ''INR''))],
            Inr (200, ConvertBody (upper (param from_arg ''USD'')) (upper (param to_arg ''INR''))
                        a (JNum c) (if c = 0 then None else Some (c / a)))) \<and>
         (\<forall>amount. (\<exists>calls b. convert_currency up amount from_arg to_arg = (calls, Inr (400, b)))
                     \<longleftrightarrow> (amount = None \<or> amount = Some 0))"
proof
  from assms show "convert_currency up (Some a) from_arg to_arg =
           ([Latest a (upper (param from_arg ''USD'')) (upper (param to_arg ''INR''))],
            Inr (200, ConvertBody (upper (param from_arg ''USD'')) (upper (param to_arg ''INR''))
                        a (JNum c) (if c = 0 then None else Some (c / a))))"
    by (simp add: convert_currency_def Let_def)
next
  show "\<forall>amount. (\<exists>calls b. convert_currency up amount from_arg to_arg = (calls, Inr (400, b)))
                     \<longleftrightarrow> (amount = None \<or> amount = Some 0)"
    by (auto simp: convert_currency_def Let_def split: option.splits sum.splits if_splits)
qed

theorem convert_negative_amount_witness:
  "(-5 :: real) < 0 \<and>
   convert_currency range_upstream (Some (-5)) (Some ''usd'') (Some ''eur'') =
     ([Latest (-5) ''USD'' ''EUR''],
      Inr (200, ConvertBody ''USD'' ''EUR'' (-5) (JNum (-10)) (Some 2)))"
proof -
  have u: "upper (param (Some ''usd'') ''USD'') = ''USD''" "upper (param (Some ''eur'') ''INR'') = ''EUR''"
    by code_simp+
  have res: "range_upstream (Latest (-5) ''USD'' ''EUR'') =
      Some (JObj [(''amount'', JNum (-5)), (''base'', JStr ''USD''), (''rates'', JObj [(''EUR'', JNum (-10))])])"
    by (simp add: range_upstream_def)
  show ?thesis
    using convert_negative_amount [of "-5" range_upstream "Some ''usd''" "Some ''eur''"
        "JObj [(''amount'', JNum (-5)), (''base'', JStr ''USD''), (''rates'', JObj [(''EUR'', JNum (-10))])]"
        "JObj [(''EUR'', JNum (-10))]" "-10"]
    by (simp add: u res)
qed

section \<open>The order of the dates of \<^verbatim>\<open>/historical\<close>\<close>

text \<open>
  Claim C9. In every successful \<^verbatim>\<open>/historical\<close> response the dates are in ascending
  order, there are as many rates as dates, and the rate at each index is the value the
  upstream rates object holds for the target currency under the date at that index,
  whatever the order of the keys of that object.
\<close>

theorem historical_dates_sorted:
  assumes "historical_data up today from_arg to_arg range_arg =
             (calls, Inr (200, HistoricalBody f t r dates rates))"
  shows "sorted dates \<and> length rates = length dates \<and>
         (\<exists>start res kvs.
            calls = [Span start today f t] \<and> up (Span start today f t) = Some res \<and>
            py_getitem res ''rates'' = Inr (JObj kvs) \<and>
            (\<forall>i<length dates. \<exists>data. (dates ! i, data) \<in> set kvs \<and>
                                  py_getitem data t = Inr (rates ! i)))"
proof -
  from assms obtain start res robj kvs where
    calls: "calls = [Span start today f t]" and
    res: "up (Span start today f t) = Some res" and
    robj: "py_getitem res ''rates'' = Inr robj" and
    items: "py_items robj = Inr kvs" and
    run: "sample 100 t (sorted_items kvs) = Inr (dates, rates)"
    by (auto simp: historical_data_def Let_def
             split: option.splits sum.splits bool.splits prod.splits)
  let ?K = "kept (stride 100 (length (sorted_items kvs))) 0 (sorted_items kvs)"
  from run have "sample_loop t (stride 100 (length (sorted_items kvs))) 0 (sorted_items kvs) ([], [])
                   = Inr (dates, rates)"
    by (simp add: sample_def)
  from sample_loop_kept [OF this] have
    dates: "dates = map fst ?K" and rates: "map (\<lambda>x. py_getitem (snd x) t) ?K = map Inr rates"
    by auto
  have "sorted (map fst (sorted_items kvs))"
    by (simp add: sorted_items_def)
  then have sorted: "sorted dates"
    unfolding dates by (rule sorted_kept)
  from rates have "length (map (\<lambda>x. py_getitem (snd x) t) ?K) = length (map Inr rates)"
    by simp
  then have len: "length rates = length dates"
    by (simp add: dates)
  have pair: "\<exists>data. (dates ! i, data) \<in> set kvs \<and> py_getitem data t = Inr (rates ! i)"
    if i: "i < length dates" for i
  proof -
    from i have iK: "i < length ?K" by (simp add: dates)
    then have "?K ! i \<in> set ?K" by simp
    then have "?K ! i \<in> set (sorted_items kvs)"
      using kept_subset [of "stride 100 (length (sorted_items kvs))" 0 "sorted_items kvs"]
      by (rule set_mp [rotated])
    then have mem: "?K ! i \<in> set kvs" by (simp add: sorted_items_def)
    from iK have "map (\<lambda>x. py_getitem (snd x) t) ?K ! i = py_getitem (snd (?K ! i)) t"
      by simp
    moreover from i len have "map Inr rates ! i = (Inr (rates ! i) :: error + json)"
      by simp
    ultimately have get: "py_getitem (snd (?K ! i)) t = Inr (rates ! i)"
      using rates by simp
    from iK have "dates ! i = fst (?K ! i)" by (simp add: dates)
    with mem get show ?thesis
      by (metis prod.collapse)
  qed
  from items have "robj = JObj kvs" by (rule py_items_obj)
  with sorted len calls res robj pair show ?thesis by blast
qed

theorem historical_dates_sorted_witness:
  "historical_data unsorted_upstream 739924 None None None =
     ([Span 739917 739924 ''USD'' ''INR''],
      Inr (200, HistoricalBody ''USD'' ''INR'' ''7d'' [''2026-10-30'', ''2026-11-02'', ''2026-11-03'']
                  [JNum 1, JNum 2, JNum 3])) \<and>
   sorted [''2026-10-30'', ''2026-11-02'', ''2026-11-03'']"
proof -
  have run: "historical_data unsorted_upstream 739924 None None None =
     ([Span 739917 739924 ''USD'' ''INR''],
      Inr (200, HistoricalBody ''USD'' ''INR'' ''7d'' [''2026-10-30'', ''2026-11-02'', ''2026-11-03'']
                  [JNum 1, JNum 2, JNum 3]))"
    by code_simp
  from historical_dates_sorted [OF run] run show ?thesis by blast
qed

section \<open>A missing rates field\<close>

text \<open>
  Claim C5. When the upstream answer is an object without a \<open>rates\<close> field,
  \<^verbatim>\<open>/convert\<close> raises \<open>KeyError\<close> on \<^verbatim>\<open>res["rates"]\<close> instead of answering with an
  error message; \<^verbatim>\<open>/historical\<close>, which tests for the field first, answers 404
  \<open>No data available\<close>.
\<close>

theorem convert_no_rates_raises:
  "py_in ''rates'' not_found = Inr False \<and>
   convert_currency no_rates_upstream (Some 10) (Some ''usd'') (Some ''xxx'') =
     ([Latest 10 ''USD'' ''XXX''], Inl KeyError) \<and>
   historical_data no_rates_upstream 739924 (Some ''usd'') (Some ''xxx'') (Some ''7d'') =
     ([Span 739917 739924 ''USD'' ''XXX''], Inr (404, ErrorBody ''No data available''))"
  by code_simp

section \<open>The rules of the chatbot\<close>

lemma getitem_in: "py_getitem res k = Inr v \<Longrightarrow> py_in k res = Inr True"
  by (cases res) (auto split: option.splits)

lemma scenario_message:
  "strip (lower ''USD to EUR last 30 days'') = ''usd to eur last 30 days''"
  by code_simp

lemma scenario_convert:
  "parse_convert ''usd to eur last 30 days'' = Some (''30'', ''DA'', ''YS'')"
  by code_simp

lemma scenario_amount: "float_of ''30'' = 30"
  by code_simp

lemma scenario_date: "parse_date ''usd to eur last 30 days'' = None"
  by code_simp

lemma scenario_range:
  "parse_range ''usd to eur last 30 days'' = Some (''USD'', ''EUR'', 30)"
  by code_simp

text \<open>
  Claim C2, as it is stated: the message \<open>USD to EUR last 30 days\<close> is answered by rule 3
  and not by an earlier rule. The pattern of rule 1 finds \<open>30 da ys\<close> in the message, so
  a conversion of 30 DA to YS is looked up first; with a service that answers that lookup
  with a rate for YS, rule 1 returns its conversion and rule 3 is never tried.
\<close>

theorem range_scenario_counterexample:
  "parse_convert ''usd to eur last 30 days'' = Some (''30'', ''DA'', ''YS'') \<and>
   chatbot any_rate_upstream 739924 ''USD to EUR last 30 days'' =
     ([Latest 30 ''DA'' ''YS''], Inr (200, ChatConvert ''30'' ''DA'' (JNum 60) ''YS'' 2))"
  by code_simp

text \<open>
  Claim C2, amended. The message \<open>USD to EUR last 30 days\<close> is answered by rule 3 with the
  range query from USD to EUR for 30 days whenever the lookup that rule 1 makes first, for
  the \<open>30 da ys\<close> its pattern finds, has no rate for YS in its answer, the answer of the
  service for the date span has a \<open>rates\<close> field, and 30 days can be subtracted from the
  current date.
\<close>

theorem range_query_scenario:
  assumes "up (Latest 30 ''DA'' ''YS'') = Some res1"
    and "has_rate res1 ''YS'' = Inr False"
    and "31 \<le> today"
    and "up (Span (today - 30) today ''USD'' ''EUR'') = Some res3"
    and "py_getitem res3 ''rates'' = Inr data"
  shows "chatbot up today ''USD to EUR last 30 days'' =
           ([Latest 30 ''DA'' ''YS'', Span (today - 30) today ''USD'' ''EUR''],
            Inr (200, ChatRange ''USD'' ''EUR'' 30 data))"
proof -
  have r1: "rule_convert up ''usd to eur last 30 days'' = ([Latest 30 ''DA'' ''YS''], Inr None)"
    using assms(1,2) by (simp add: rule_convert_def scenario_convert scenario_amount)
  have r2: "rule_date up ''usd to eur last 30 days'' = ([], Inr None)"
    by (simp add: rule_date_def scenario_date)
  have r3: "rule_range up today ''usd to eur last 30 days'' =
      ([Span (today - 30) today ''USD'' ''EUR''], Inr (Some (200, ChatRange ''USD'' ''EUR'' 30 data)))"
    using assms(3,4,5) getitem_in [OF assms(5)]
    by (simp add: rule_range_def scenario_range minus_days_def)
  show ?thesis
    by (simp add: chatbot_def scenario_message after_convert_def r1 r2 r3 or_else_def fallback_def)
qed

theorem range_query_scenario_witness:
  "chatbot range_upstream 739924 ''USD to EUR last 30 days'' =
     ([Latest 30 ''DA'' ''YS'', Span 739894 739924 ''USD'' ''EUR''],
      Inr (200, ChatRange ''USD'' ''EUR'' 30 (JObj [(''2026-10-30'', JObj [(''EUR'', JNum 2)])])))"
proof -
  have a: "range_upstream (Latest 30 ''DA'' ''YS'') = Some not_found"
    by (simp add: range_upstream_def)
  have b: "has_rate not_found ''YS'' = Inr False"
    by (simp add: has_rate_def not_found_def)
  have c: "range_upstream (Span (739924 - 30) 739924 ''USD'' ''EUR'') =
      Some (JObj [(''base'', JStr ''USD''), (''rates'', JObj [(''2026-10-30'', JObj [(''EUR'', JNum 2)])])])"
    by (simp add: range_upstream_def)
  have d: "py_getitem (JObj [(''base'', JStr ''USD''), (''rates'', JObj [(''2026-10-30'', JObj [(''EUR'', JNum 2)])])]) ''rates''
      = Inr (JObj [(''2026-10-30'', JObj [(''EUR'', JNum 2)])])"
    by simp
  from range_query_scenario [OF a b _ c d] show ?thesis by simp
qed

text \<open>
  Claim C3, as the spec states it: when the pattern of rule 1 is found and the rate lookup
  fails, rules 2 and 3 are not tried. The handler does try them: for the message below
  rule 1 extracts \<open>7 da ys\<close>, its lookup finds no rate, and the answer is that of rule 3.
\<close>

theorem no_fall_through_counterexample:
  "parse_convert ''usd to inr last 7 days'' = Some (''7'', ''DA'', ''YS'') \<and>
   range_upstream (Latest (float_of ''7'') ''DA'' ''YS'') = Some not_found \<and>
   has_rate not_found ''YS'' = Inr False \<and>
   chatbot range_upstream 739924 ''USD to INR last 7 days'' =
     ([Latest 7 ''DA'' ''YS'', Span 739917 739924 ''USD'' ''INR''],
      Inr (200, ChatRange ''USD'' ''INR'' 7 (JObj [(''2026-10-30'', JObj [(''INR'', JNum 2)])])))"
  by code_simp

text \<open>
  Claim C3, amended. When the pattern of rule 1 is found and the upstream answer has no
  rate for the target currency, the handler goes on with rules 2 and 3: its upstream calls
  are the lookup of rule 1 followed by the calls of those rules, and its result is theirs
  (the help text when neither answers).
\<close>

theorem failed_lookup_falls_through:
  assumes "parse_convert (strip (lower raw)) = Some (amount, f, t)"
    and "up (Latest (float_of amount) f t) = Some res"
    and "has_rate res t = Inr False"
  shows "fst (chatbot up today raw) =
           Latest (float_of amount) f t # fst (after_convert up today (strip (lower raw))) \<and>
         snd (chatbot up today raw) = snd (fallback (after_convert up today (strip (lower raw))))"
proof -
  have r1: "rule_convert up (strip (lower raw)) = ([Latest (float_of amount) f t], Inr None)"
    using assms by (simp add: rule_convert_def)
  obtain calls r where rest: "after_convert up today (strip (lower raw)) = (calls, r)"
    by (cases "after_convert up today (strip (lower raw))")
  show ?thesis
    by (cases r) (auto simp: chatbot_def r1 rest or_else_def fallback_def split: option.splits)
qed

theorem failed_lookup_falls_through_witness:
  "chatbot range_upstream 739924 ''Rate of USD to INR on 2023-01-05 for 3 days'' =
     ([Latest 3 ''DA'' ''YS'', OnDate ''2023-01-05'' ''USD'' ''INR''],
      Inr (200, ChatRate ''2023-01-05'' ''USD'' (JNum 2) ''INR''))"
proof -
  let ?raw = "''Rate of USD to INR on 2023-01-05 for 3 days''"
  have a: "parse_convert (strip (lower ?raw)) = Some (''3'', ''DA'', ''YS'')"
    by code_simp
  have b: "range_upstream (Latest (float_of ''3'') ''DA'' ''YS'') = Some not_found"
    by (simp add: range_upstream_def)
  have c: "has_rate not_found ''YS'' = Inr False"
    by (simp add: has_rate_def not_found_def)
  have d: "float_of ''3'' = 3"
    by code_simp
  have e: "after_convert range_upstream 739924 (strip (lower ?raw)) =
      ([OnDate ''2023-01-05'' ''USD'' ''INR''],
       Inr (Some (200, ChatRate ''2023-01-05'' ''USD'' (JNum 2) ''INR'')))"
    by code_simp
  from failed_lookup_falls_through [where up = range_upstream and today = 739924, OF a b c]
  show ?thesis
    by (simp add: d e fallback_def prod_eq_iff)
qed

text \<open>
  Claim C4. For the message \<open>0 USD to INR\<close> rule 1 extracts the amount 0 and looks the
  rate up; when the upstream answer has a rate for INR the handler divides by the amount
  and raises \<open>ZeroDivisionError\<close>, where the claim has it fall through to the next rule.
\<close>

theorem chatbot_zero_amount_raises:
  "parse_convert ''0 usd to inr'' = Some (''0'', ''USD'', ''INR'') \<and> float_of ''0'' = 0 \<and>
   chatbot zero_upstream 739924 ''0 USD to INR'' =
     ([Latest 0 ''USD'' ''INR''], Inl ZeroDivisionError)"
  by code_simp

section \<open>What the patterns capture\<close>

lemma greedy_sound:
  "s' \<in> set (greedy p s) \<Longrightarrow> \<exists>pre. s = pre @ s' \<and> list_all p pre"
proof (induction s)
  case Nil
  then show ?case by simp
next
  case (Cons c cs)
  show ?case
  proof (cases "s' = c # cs")
    case True
    then show ?thesis by simp
  next
    case False
    with Cons.prems have c: "p c" and "s' \<in> set (greedy p cs)"
      by (auto split: if_splits)
    with Cons.IH obtain pre where "cs = pre @ s'" "list_all p pre" by blast
    with c have "c # cs = (c # pre) @ s' \<and> list_all p (c # pre)" by simp
    then show ?thesis by blast
  qed
qed

lemma atleast_sound:
  "s' \<in> set (atleast n p s) \<Longrightarrow> \<exists>pre. s = pre @ s' \<and> n \<le> length pre \<and> list_all p pre"
proof (induction n p s rule: atleast.induct)
  case (1 p s)
  then show ?case using greedy_sound [of s' p s] by auto
next
  case (2 n p)
  then show ?case by simp
next
  case (3 n p c cs)
  from "3.prems" have c: "p c" and "s' \<in> set (atleast n p cs)"
    by (auto split: if_splits)
  with "3.IH" obtain pre where "cs = pre @ s'" "n \<le> length pre" "list_all p pre" by blast
  with c have "c # cs = (c # pre) @ s' \<and> Suc n \<le> length (c # pre) \<and> list_all p (c # pre)"
    by simp
  then show ?case by blast
qed

lemma exactly_sound:
  "s' \<in> set (exactly n p s) \<Longrightarrow> \<exists>pre. s = pre @ s' \<and> length pre = n \<and> list_all p pre"
proof (induction n p s rule: exactly.induct)
  case (1 p s)
  then show ?case by simp
next
  case (2 n p)
  then show ?case by simp
next
  case (3 n p c cs)
  from "3.prems" have c: "p c" and "s' \<in> set (exactly n p cs)"
    by (auto split: if_splits)
  with "3.IH" obtain pre where "cs = pre @ s'" "length pre = n" "list_all p pre" by blast
  with c have "c # cs = (c # pre) @ s' \<and> length (c # pre) = Suc n \<and> list_all p (c # pre)"
    by simp
  then show ?case by blast
qed

lemma matches_caps:
  "(s', g') \<in> set (matches r (s, g)) \<Longrightarrow> i \<notin> groups r \<Longrightarrow> g' i = g i"
proof (induction r arbitrary: s g s' g')
  case (Sym p)
  then show ?case by (auto split: list.splits if_splits)
next
  case (Seq a b)
  from Seq.prems(1) obtain s1 g1 where
    "(s1, g1) \<in> set (matches a (s, g))" "(s', g') \<in> set (matches b (s1, g1))"
    by auto
  with Seq.IH Seq.prems(2) show ?case by (metis UnCI groups.simps(2))
next
  case (Alt a b)
  then show ?case by auto
next
  case (Opt a)
  then show ?case by auto
next
  case (AtLeast n p)
  then show ?case by auto
next
  case (Exactly n p)
  then show ?case by auto
next
  case (Grp j a)
  then show ?case by auto
qed

lemma matches_Seq:
  "(s', g') \<in> set (matches (Seq a b) st) \<Longrightarrow>
     \<exists>s1 g1. (s1, g1) \<in> set (matches a st) \<and> (s', g') \<in> set (matches b (s1, g1))"
  by auto

lemma matches_word:
  "(s', g') \<in> set (matches (word w) (s, g)) \<Longrightarrow> w \<noteq> [] \<Longrightarrow> s = w @ s' \<and> g' = g"
proof (induction w arbitrary: s rule: word.induct)
  case 1
  then show ?case by simp
next
  case (2 c)
  then show ?case by (auto simp: lit_def split: list.splits if_splits)
next
  case (3 c d ds)
  from "3.prems"(1) obtain s1 g1 where
    a: "(s1, g1) \<in> set (matches (lit c) (s, g))" and
    b: "(s', g') \<in> set (matches (word (d # ds)) (s1, g1))"
    by auto
  from a have "s = c # s1" "g1 = g"
    by (auto simp: lit_def split: list.splits if_splits)
  moreover from "3.IH" [of s1] b have "s1 = (d # ds) @ s' \<and> g' = g1"
    using \<open>g1 = g\<close> by simp
  ultimately show ?case by simp
qed

lemma alpha_words:
  "list_all is_alpha ''rupee''" "list_all is_alpha ''yen''" "list_all is_alpha ''dollar''"
  "list_all is_alpha ''euro''" "list_all is_alpha ''usd''" "list_all is_alpha ''eur''"
  "list_all is_alpha ''inr''" "list_all is_alpha ''jpy''" "list_all is_alpha ''gbp''"
  by (simp_all add: is_alpha_def lower_letters_def)

lemma currency_word_sound:
  assumes "(s', g') \<in> set (matches currency_word (s, g))"
  shows "\<exists>pre. s = pre @ s' \<and> 2 \<le> length pre \<and> list_all is_alpha pre"
proof -
  from assms consider
      (run) "s' \<in> set (atleast 2 is_alpha s)"
    | (w1) "(s', g') \<in> set (matches (word ''rupee'') (s, g))"
    | (w2) "(s', g') \<in> set (matches (word ''yen'') (s, g))"
    | (w3) "(s', g') \<in> set (matches (word ''dollar'') (s, g))"
    | (w4) "(s', g') \<in> set (matches (word ''euro'') (s, g))"
    by (auto simp: currency_word_def simp del: word.simps)
  then show ?thesis
  proof cases
    case run
    from atleast_sound [OF this] show ?thesis .
  next
    case w1
    from matches_word [OF this] have "s = ''rupee'' @ s'" by simp
    with alpha_words(1) show ?thesis by (intro exI [of _ "''rupee''"]) simp
  next
    case w2
    from matches_word [OF this] have "s = ''yen'' @ s'" by simp
    with alpha_words(2) show ?thesis by (intro exI [of _ "''yen''"]) simp
  next
    case w3
    from matches_word [OF this] have "s = ''dollar'' @ s'" by simp
    with alpha_words(3) show ?thesis by (intro exI [of _ "''dollar''"]) simp
  next
    case w4
    from matches_word [OF this] have "s = ''euro'' @ s'" by simp
    with alpha_words(4) show ?thesis by (intro exI [of _ "''euro''"]) simp
  qed
qed

lemma currency_code_sound:
  assumes "(s', g') \<in> set (matches currency_code (s, g))"
  shows "\<exists>pre. s = pre @ s' \<and> length pre = 3 \<and> list_all is_alpha pre"
proof -
  from assms consider
      (run) "s' \<in> set (exactly 3 is_alpha s)"
    | (w1) "(s', g') \<in> set (matches (word ''usd'') (s, g))"
    | (w2) "(s', g') \<in> set (matches (word ''eur'') (s, g))"
    | (w3) "(s', g') \<in> set (matches (word ''inr'') (s, g))"
    | (w4) "(s', g') \<in> set (matches (word ''jpy'') (s, g))"
    | (w5) "(s', g') \<in> set (matches (word ''gbp'') (s, g))"
    by (auto simp: currency_code_def simp del: word.simps)
  then show ?thesis
  proof cases
    case run
    from exactly_sound [OF this] show ?thesis .
  next
    case w1
    from matches_word [OF this] have "s = ''usd'' @ s'" by simp
    with alpha_words(5) show ?thesis by (intro exI [of _ "''usd''"]) simp
  next
    case w2
    from matches_word [OF this] have "s = ''eur'' @ s'" by simp
    with alpha_words(6) show ?thesis by (intro exI [of _ "''eur''"]) simp
  next
    case w3
    from matches_word [OF this] have "s = ''inr'' @ s'" by simp
    with alpha_words(7) show ?thesis by (intro exI [of _ "''inr''"]) simp
  next
    case w4
    from matches_word [OF this] have "s = ''jpy'' @ s'" by simp
    with alpha_words(8) show ?thesis by (intro exI [of _ "''jpy''"]) simp
  next
    case w5
    from matches_word [OF this] have "s = ''gbp'' @ s'" by simp
    with alpha_words(9) show ?thesis by (intro exI [of _ "''gbp''"]) simp
  qed
qed

lemma group_word:
  assumes "(s', g') \<in> set (matches (Grp i currency_word) (s, g))"
  shows "\<exists>tok. g' i = Some tok \<and> 2 \<le> length tok \<and> list_all is_alpha tok"
proof -
  from assms obtain g0 where m: "(s', g0) \<in> set (matches currency_word (s, g))"
    and g': "g' = g0(i \<mapsto> take (length s - length s') s)"
    by auto
  from currency_word_sound [OF m] obtain pre where
    "s = pre @ s'" "2 \<le> length pre" "list_all is_alpha pre" by blast
  with g' show ?thesis by simp
qed

lemma group_code:
  assumes "(s', g') \<in> set (matches (Grp i currency_code) (s, g))"
  shows "\<exists>tok. g' i = Some tok \<and> length tok = 3 \<and> list_all is_alpha tok"
proof -
  from assms obtain g0 where m: "(s', g0) \<in> set (matches currency_code (s, g))"
    and g': "g' = g0(i \<mapsto> take (length s - length s') s)"
    by auto
  from currency_code_sound [OF m] obtain pre where
    "s = pre @ s'" "length pre = 3" "list_all is_alpha pre" by blast
  with g' show ?thesis by simp
qed

lemma search_sound:
  "search r s = Some g \<Longrightarrow> \<exists>s0 s'. (s', g) \<in> set (matches r (s0, Map.empty))"
proof (induction s)
  case Nil
  then show ?case by (auto split: list.splits) (metis list.set_intros(1))
next
  case (Cons c cs)
  show ?case
  proof (cases "matches r (c # cs, Map.empty)")
    case Nil
    with Cons show ?thesis by simp
  next
    case (Cons st rest)
    obtain s' g0 where "st = (s', g0)" by (cases st)
    with Cons Cons.prems \<open>search r (c # cs) = Some g\<close> have "(s', g) \<in> set (matches r (c # cs, Map.empty))"
      by simp
    then show ?thesis by blast
  qed
qed


lemma groups_word: "groups (word w) = {}"
  by (induction w rule: word.induct) (simp_all add: lit_def)

lemma convert_groups:
  assumes "(s', g') \<in> set (matches rx_convert (s, g))"
  shows "(\<exists>tok. g' 2 = Some tok \<and> 2 \<le> length tok \<and> list_all is_alpha tok) \<and>
         (\<exists>tok. g' 3 = Some tok \<and> 2 \<le> length tok \<and> list_all is_alpha tok)"
proof -
  let ?tail = "Seq (AtLeast 0 is_space) (Seq (Opt (alts [word ''to'', word ''in'']))
                 (Seq (AtLeast 0 is_space) (Grp 3 currency_word)))"
  from assms obtain s2 g2 s3 g3 where
    second: "(s3, g3) \<in> set (matches (Grp 2 currency_word) (s2, g2))" and
    tail: "(s', g') \<in> set (matches ?tail (s3, g3))"
    unfolding rx_convert_def seqs.simps by (blast dest: matches_Seq)
  from tail obtain s6 g6 where third: "(s', g') \<in> set (matches (Grp 3 currency_word) (s6, g6))"
    by (blast dest: matches_Seq)
  have "2 \<notin> groups ?tail"
    by (simp add: groups_word currency_word_def lit_def)
  with tail have "g' 2 = g3 2" by (rule matches_caps)
  with group_word [OF second] group_word [OF third] show ?thesis by simp
qed

lemma date_groups:
  assumes "(s', g') \<in> set (matches rx_date (s, g))"
  shows "(\<exists>tok. g' 1 = Some tok \<and> length tok = 3 \<and> list_all is_alpha tok) \<and>
         (\<exists>tok. g' 2 = Some tok \<and> length tok = 3 \<and> list_all is_alpha tok)"
proof -
  let ?date = "Grp 3 (seqs [Exactly 4 is_digit, lit CHR ''-'', Exactly 2 is_digit, lit CHR ''-'',
                            Exactly 2 is_digit])"
  let ?tail2 = "Seq (AtLeast 0 is_any) (Seq (word ''on'') (Seq (AtLeast 0 is_space) ?date))"
  let ?tail1 = "Seq (AtLeast 0 is_space) (Seq (Opt (word ''to''))
                  (Seq (AtLeast 0 is_space) (Seq (Grp 2 currency_code) ?tail2)))"
  from assms obtain s1 g1 where
    first: "(s1, g1) \<in> set (matches (Grp 1 currency_code) (s, g))" and
    tail1: "(s', g') \<in> set (matches ?tail1 (s1, g1))"
    unfolding rx_date_def seqs.simps by (blast dest: matches_Seq)
  from tail1 obtain s4 g4 s5 g5 where
    second: "(s5, g5) \<in> set (matches (Grp 2 currency_code) (s4, g4))" and
    tail2: "(s', g') \<in> set (matches ?tail2 (s5, g5))"
    by (blast dest: matches_Seq)
  have "1 \<notin> groups ?tail1"
    by (simp add: groups_word currency_code_def lit_def)
  with tail1 have one: "g' 1 = g1 1" by (rule matches_caps)
  have "2 \<notin> groups ?tail2"
    by (simp add: groups_word lit_def)
  with tail2 have two: "g' 2 = g5 2" by (rule matches_caps)
  from group_code [OF first] group_code [OF second] one two show ?thesis by simp
qed

lemma range_groups:
  assumes "(s', g') \<in> set (matches rx_range (s, g))"
  shows "(\<exists>tok. g' 1 = Some tok \<and> length tok = 3 \<and> list_all is_alpha tok) \<and>
         (\<exists>tok. g' 2 = Some tok \<and> length tok = 3 \<and> list_all is_alpha tok)"
proof -
  let ?tail2 = "Seq (AtLeast 0 is_any) (Seq (word ''last'') (Seq (AtLeast 0 is_space)
                  (Seq (Grp 3 (AtLeast 1 is_digit)) (Seq (AtLeast 0 is_space) (word ''days'')))))"
  let ?tail1 = "Seq (AtLeast 0 is_space) (Seq (word ''to'')
                  (Seq (AtLeast 0 is_space) (Seq (Grp 2 currency_code) ?tail2)))"
  from assms obtain s1 g1 where
    first: "(s1, g1) \<in> set (matches (Grp 1 currency_code) (s, g))" and
    tail1: "(s', g') \<in> set (matches ?tail1 (s1, g1))"
    unfolding rx_range_def seqs.simps by (blast dest: matches_Seq)
  from tail1 obtain s4 g4 s5 g5 where
    second: "(s5, g5) \<in> set (matches (Grp 2 currency_code) (s4, g4))" and
    tail2: "(s', g') \<in> set (matches ?tail2 (s5, g5))"
    by (blast dest: matches_Seq)
  have "1 \<notin> groups ?tail1"
    by (simp add: groups_word currency_code_def lit_def)
  with tail1 have one: "g' 1 = g1 1" by (rule matches_caps)
  have "2 \<notin> groups ?tail2"
    by (simp add: groups_word lit_def)
  with tail2 have two: "g' 2 = g5 2" by (rule matches_caps)
  from group_code [OF first] group_code [OF second] one two show ?thesis by simp
qed

lemma upper_alpha: "is_alpha c \<Longrightarrow> upper_char c \<in> set upper_letters"
  unfolding is_alpha_def lower_letters_def upper_letters_def upper_char_def
  by auto

lemma all_upper_upper: "list_all is_alpha tok \<Longrightarrow> all_upper (upper tok)"
  by (induction tok) (simp_all add: upper_def upper_alpha)

lemma length_upper: "length (upper tok) = length tok"
  by (simp add: upper_def)

lemma mapping_codes: "map_of mapping k = Some code \<Longrightarrow> all_upper code \<and> length code = 3"
  by (auto simp: mapping_def upper_letters_def split: if_splits)

lemma normalize_upper:
  assumes "list_all is_alpha tok" and "2 \<le> length tok"
  shows "all_upper (normalize tok) \<and> 2 \<le> length (normalize tok)"
proof (cases "map_of mapping (lower tok)")
  case None
  with assms show ?thesis
    by (simp add: normalize_def all_upper_upper length_upper)
next
  case (Some code)
  with mapping_codes [OF Some] show ?thesis
    by (simp add: normalize_def)
qed

text \<open>
  Claim C6, as the spec states it: every normalized currency code has three letters.
  Rule 1 accepts any word of two or more letters and only maps the five synonyms, so
  \<open>dollars\<close> becomes \<open>DOLLARS\<close> and the \<open>da\<close> of \<open>days\<close> becomes \<open>DA\<close>.
\<close>

theorem three_letter_code_counterexample:
  "parse_convert ''100 dollars to rupees'' = Some (''100'', ''DOLLARS'', ''RUPEES'') \<and>
   length ''DOLLARS'' = 7 \<and>
   parse_convert ''30 days'' = Some (''30'', ''DA'', ''YS'') \<and> length ''DA'' = 2"
  by code_simp

text \<open>
  Claim C6, amended. Every currency code a rule extracts consists of uppercase letters
  only; it has exactly three letters in rules 2 and 3 and at least two letters in rule 1.
\<close>

theorem normalized_codes_uppercase:
  "(parse_convert m = Some (a, f1, t1) \<longrightarrow>
      all_upper f1 \<and> all_upper t1 \<and> 2 \<le> length f1 \<and> 2 \<le> length t1) \<and>
   (parse_date m = Some (f2, t2, d) \<longrightarrow>
      all_upper f2 \<and> all_upper t2 \<and> length f2 = 3 \<and> length t2 = 3) \<and>
   (parse_range m = Some (f3, t3, n) \<longrightarrow>
      all_upper f3 \<and> all_upper t3 \<and> length f3 = 3 \<and> length t3 = 3)"
proof (intro conjI impI)
  assume p: "parse_convert m = Some (a, f1, t1)"
  then obtain g where g: "search rx_convert m = Some g"
    and f1: "f1 = normalize (grp g 2)" and t1: "t1 = normalize (grp g 3)"
    by (auto simp: parse_convert_def split: option.splits)
  from search_sound [OF g] convert_groups obtain x y where
    "g 2 = Some x" "2 \<le> length x" "list_all is_alpha x"
    "g 3 = Some y" "2 \<le> length y" "list_all is_alpha y"
    by blast
  then have "all_upper (normalize (grp g 2)) \<and> 2 \<le> length (normalize (grp g 2))"
    "all_upper (normalize (grp g 3)) \<and> 2 \<le> length (normalize (grp g 3))"
    by (simp_all add: grp_def normalize_upper)
  with f1 t1 show "all_upper f1" "all_upper t1" "2 \<le> length f1" "2 \<le> length t1"
    by simp_all
next
  assume p: "parse_date m = Some (f2, t2, d)"
  then obtain g where g: "search rx_date m = Some g"
    and f2: "f2 = upper (grp g 1)" and t2: "t2 = upper (grp g 2)"
    by (auto simp: parse_date_def split: option.splits)
  from search_sound [OF g] date_groups obtain x y where
    "g 1 = Some x" "length x = 3" "list_all is_alpha x"
    "g 2 = Some y" "length y = 3" "list_all is_alpha y"
    by blast
  with f2 t2 show "all_upper f2" "all_upper t2" "length f2 = 3" "length t2 = 3"
    by (simp_all add: grp_def all_upper_upper length_upper)
next
  assume p: "parse_range m = Some (f3, t3, n)"
  then obtain g where g: "search rx_range m = Some g"
    and f3: "f3 = upper (grp g 1)" and t3: "t3 = upper (grp g 2)"
    by (auto simp: parse_range_def split: option.splits)
  from search_sound [OF g] range_groups obtain x y where
    "g 1 = Some x" "length x = 3" "list_all is_alpha x"
    "g 2 = Some y" "length y = 3" "list_all is_alpha y"
    by blast
  with f3 t3 show "all_upper f3" "all_upper t3" "length f3 = 3" "length t3 = 3"
    by (simp_all add: grp_def all_upper_upper length_upper)
qed

theorem normalized_codes_uppercase_witness:
  "parse_convert ''100 usd to eur on 2023-01-05 last 30 days'' = Some (''100'', ''USD'', ''EUR'') \<and>
   parse_date ''100 usd to eur on 2023-01-05 last 30 days'' = Some (''USD'', ''EUR'', ''2023-01-05'') \<and>
   parse_range ''100 usd to eur on 2023-01-05 last 30 days'' = Some (''USD'', ''EUR'', 30) \<and>
   all_upper ''USD'' \<and> all_upper ''EUR'' \<and> 2 \<le> length ''USD'' \<and> length ''EUR'' = 3"
proof -
  let ?m = "''100 usd to eur on 2023-01-05 last 30 days''"
  have a: "parse_convert ?m = Some (''100'', ''USD'', ''EUR'')"
    by code_simp
  have b: "parse_date ?m = Some (''USD'', ''EUR'', ''2023-01-05'')"
    by code_simp
  have c: "parse_range ?m = Some (''USD'', ''EUR'', 30)"
    by code_simp
  from normalized_codes_uppercase [of ?m "''100''" "''USD''" "''EUR''" "''USD''" "''EUR''"
      "''2023-01-05''" "''USD''" "''EUR''" 30] a b c
  show ?thesis by simp
qed

end
